theory Spec2Isabelle
  imports Complex_Main
begin

section \<open>Values of the host language\<close>

text \<open>
  A TypeScript \<open>number\<close> is a double: a finite value (always a rational), or one of
  \<open>NaN\<close>, \<open>+Infinity\<close>, \<open>-Infinity\<close>.  Grid dimensions and the indices handed
  to \<open>Road.getItem\<close> are such numbers.  Round orders are whole sequence numbers and
  are modelled as \<open>int\<close>; the indices the derived-road builder computes are integers
  too (they may be negative).
\<close>

datatype number = Finite rat | NaN | PosInfinity | NegInfinity

text \<open>\<open>Number.isInteger(x)\<close>: finite and without fractional part.\<close>

fun Number_isInteger :: "number \<Rightarrow> bool" where
  "Number_isInteger (Finite q) = (q = of_int \<lfloor>q\<rfloor>)"
| "Number_isInteger NaN = False"
| "Number_isInteger PosInfinity = False"
| "Number_isInteger NegInfinity = False"

text \<open>\<open>x <= 0\<close> on numbers; every comparison with \<open>NaN\<close> is false.\<close>

fun lessEqZero :: "number \<Rightarrow> bool" where
  "lessEqZero (Finite q) = (q \<le> 0)"
| "lessEqZero NaN = False"
| "lessEqZero PosInfinity = False"
| "lessEqZero NegInfinity = True"

text \<open>
  What the code can throw: the runtime's \<open>TypeError\<close> (reading a property of
  \<open>undefined\<close>) and \<open>new Error(message)\<close>.
\<close>

datatype error = TypeError | Error string

text \<open>
  \<open>xs[i]\<close> for an integer \<open>i\<close>: the element, or \<open>undefined\<close> (here \<open>None\<close>) when
  \<open>i\<close> is negative or not below the length.  Nothing is raised.
\<close>

definition arrayGet :: "'a list \<Rightarrow> int \<Rightarrow> 'a option" where
  "arrayGet xs i = (if 0 \<le> i \<and> i < int (length xs) then Some (xs ! nat i) else None)"

text \<open>
  \<open>xs[n]\<close> for an arbitrary number \<open>n\<close>: only a non-negative integer below the
  length names an element.
\<close>

definition arrayIndex :: "'a list \<Rightarrow> number \<Rightarrow> 'a option" where
  "arrayIndex xs n =
     (case n of
        Finite q \<Rightarrow>
          (if q = of_int \<lfloor>q\<rfloor> \<and> 0 \<le> q \<and> \<lfloor>q\<rfloor> < int (length xs)
           then Some (xs ! nat \<lfloor>q\<rfloor>) else None)
      | _ \<Rightarrow> None)"

section \<open>Rounds\<close>

datatype GameResult = Tie | BankerWin | PlayerWin

datatype PairResult = NoPair | BankerPair | PlayerPair | AllPair

record RoundResult =
  order :: int
  result :: int
  gameResult :: GameResult
  pairResult :: PairResult

section \<open>Grids\<close>

text \<open>
  \<open>RoadRow<T> = ReadonlyArray<T | undefined>\<close> and
  \<open>RoadArray<T> = ReadonlyArray<RoadRow<T>>\<close>: a list of rows, a row a list of
  cells, a cell either an item or \<open>undefined\<close>.  Rows may differ in length.
\<close>

type_synonym 'a RoadRow = "'a option list"

type_synonym 'a RoadArray = "'a RoadRow list"

text \<open>\<open>row[c]\<close>: \<open>undefined\<close> both for a hole and for an index outside the row.\<close>

definition rowGet :: "'a RoadRow \<Rightarrow> int \<Rightarrow> 'a option" where
  "rowGet r c = (case arrayGet r c of None \<Rightarrow> None | Some x \<Rightarrow> x)"

text \<open>
  \<open>grid[r][c]\<close>: when \<open>grid[r]\<close> is \<open>undefined\<close> the second read raises
  \<open>TypeError\<close>.
\<close>

definition gridGet :: "'a RoadArray \<Rightarrow> int \<Rightarrow> int \<Rightarrow> error + 'a option" where
  "gridGet grid r c =
     (case arrayGet grid r of None \<Rightarrow> Inl TypeError | Some rw \<Rightarrow> Inr (rowGet rw c))"

text \<open>Of a cell of the big road the builder reads the \<open>order\<close> field only.\<close>

record BigRoadItem =
  order :: int

section \<open>The derived-road builder\<close>

record DownRoadItem =
  order :: int
  repetition :: bool

text \<open>\<open>const enum DownRoadGap\<close> with its three values.\<close>

datatype DownRoadGap = BigEyeRoadGap | SmallRoadGap | CockroachRoadGap

fun gapValue :: "DownRoadGap \<Rightarrow> int" where
  "gapValue BigEyeRoadGap = 1"
| "gapValue SmallRoadGap = 2"
| "gapValue CockroachRoadGap = 3"

record IndexItem =
  rowIndex :: int
  columnIndex :: int
  order :: int

text \<open>\<open>Math.max(0, ...bigRoadGraph.map(row => row.length))\<close>\<close>

definition maxColumnCountOf :: "'a RoadArray \<Rightarrow> nat" where
  "maxColumnCountOf bigRoadGraph = foldr max (map length bigRoadGraph) 0"

text \<open>
  The body of the inner loop, for the loop variables \<open>columnIndex\<close> (here
  \<open>colIdx\<close>) and \<open>rowIndex\<close> (here \<open>rowIdx\<close>); the state is
  \<open>(currentLength, indexArr)\<close>.  The loop bound keeps \<open>rowIdx\<close> inside the grid.
\<close>

definition scanCell ::
  "BigRoadItem RoadArray \<Rightarrow> nat \<Rightarrow> nat \<Rightarrow> nat \<times> IndexItem list \<Rightarrow> nat \<times> IndexItem list" where
  "scanCell bigRoadGraph colIdx rowIdx st =
     (case rowGet (bigRoadGraph ! rowIdx) (int colIdx) of
        None \<Rightarrow> st
      | Some item \<Rightarrow>
          (fst st + 1,
           snd st @ [\<lparr>rowIndex = int rowIdx, columnIndex = int colIdx,
                      order = BigRoadItem.order item\<rparr>]))"

text \<open>
  The body of the outer loop, for one \<open>colIdx\<close>; the state is
  \<open>(indexArr, lengthArr)\<close>.
\<close>

definition scanColumn ::
  "BigRoadItem RoadArray \<Rightarrow> nat \<Rightarrow> IndexItem list \<times> nat list \<Rightarrow> IndexItem list \<times> nat list" where
  "scanColumn bigRoadGraph colIdx st =
     (case fold (scanCell bigRoadGraph colIdx) [0..<length bigRoadGraph] (0, fst st) of
        (currentLength, indexArr) \<Rightarrow> (indexArr, snd st @ [currentLength]))"

definition scanGraph ::
  "BigRoadItem RoadArray \<Rightarrow> nat \<Rightarrow> IndexItem list \<times> nat list" where
  "scanGraph bigRoadGraph maxColumnCount =
     fold (scanColumn bigRoadGraph) [0..<maxColumnCount] ([], [])"

text \<open>The choice of \<open>beginIndex\<close> from the two cells read; \<open>None\<close> is the early return.\<close>

definition beginIndexOf :: "BigRoadItem option \<Rightarrow> BigRoadItem option \<Rightarrow> int option" where
  "beginIndexOf item1 item2 =
     (case item1 of
        Some i1 \<Rightarrow> Some (BigRoadItem.order i1)
      | None \<Rightarrow> (case item2 of Some i2 \<Rightarrow> Some (BigRoadItem.order i2) | None \<Rightarrow> None))"

text \<open>
  The mark pushed for one item that passed the \<open>order >= beginIndex\<close> test.  The
  comparison of two \<open>lengthArr\<close> reads is \<open>===\<close> on \<open>number | undefined\<close>.
\<close>

definition emitItem ::
  "BigRoadItem RoadArray \<Rightarrow> int \<Rightarrow> nat list \<Rightarrow> IndexItem \<Rightarrow> error + DownRoadItem" where
  "emitItem bigRoadGraph rowGap lengthArr item =
     (if rowIndex item = 0 then
        Inr \<lparr>DownRoadItem.order = IndexItem.order item,
             repetition =
               (arrayGet lengthArr (columnIndex item - rowGap - 1) =
                arrayGet lengthArr (columnIndex item - 1))\<rparr>
      else
        (case gridGet bigRoadGraph (rowIndex item - 1) (columnIndex item - rowGap) of
           Inl e \<Rightarrow> Inl e
         | Inr lastItem \<Rightarrow>
             (case gridGet bigRoadGraph (rowIndex item) (columnIndex item - rowGap) of
                Inl e \<Rightarrow> Inl e
              | Inr targetItem \<Rightarrow>
                  Inr \<lparr>DownRoadItem.order = IndexItem.order item,
                       repetition = (lastItem = None \<or> targetItem \<noteq> None)\<rparr>)))"

text \<open>\<open>indexArr.forEach\<close>, pushing onto \<open>downGraphArr\<close>.\<close>

fun forEachItem ::
  "BigRoadItem RoadArray \<Rightarrow> int \<Rightarrow> nat list \<Rightarrow> int \<Rightarrow> IndexItem list \<Rightarrow> DownRoadItem list
     \<Rightarrow> error + DownRoadItem list" where
  "forEachItem bigRoadGraph rowGap lengthArr beginIndex [] downGraphArr = Inr downGraphArr"
| "forEachItem bigRoadGraph rowGap lengthArr beginIndex (item # items) downGraphArr =
     (if IndexItem.order item \<ge> beginIndex then
        (case emitItem bigRoadGraph rowGap lengthArr item of
           Inl e \<Rightarrow> Inl e
         | Inr mark \<Rightarrow>
             forEachItem bigRoadGraph rowGap lengthArr beginIndex items (downGraphArr @ [mark]))
      else forEachItem bigRoadGraph rowGap lengthArr beginIndex items downGraphArr)"

text \<open>
  \<open>generateDownRoadData\<close>.  \<open>Array.prototype.sort\<close> is stable, as \<open>sort_key\<close> is.
\<close>

definition generateDownRoadData ::
  "BigRoadItem RoadArray \<Rightarrow> DownRoadGap \<Rightarrow> error + DownRoadItem list" where
  "generateDownRoadData bigRoadGraph rowGap =
     (let maxColumnCount = maxColumnCountOf bigRoadGraph in
      case gridGet bigRoadGraph 1 (gapValue rowGap) of
        Inl e \<Rightarrow> Inl e
      | Inr item1 \<Rightarrow>
          (case gridGet bigRoadGraph 0 (gapValue rowGap + 1) of
             Inl e \<Rightarrow> Inl e
           | Inr item2 \<Rightarrow>
               (case beginIndexOf item1 item2 of
                  None \<Rightarrow> Inr []
                | Some beginIndex \<Rightarrow>
                    (case scanGraph bigRoadGraph maxColumnCount of
                       (indexArr, lengthArr) \<Rightarrow>
                         forEachItem bigRoadGraph (gapValue rowGap) lengthArr beginIndex
                           (sort_key IndexItem.order indexArr) []))))"

section \<open>The grid abstraction\<close>

text \<open>
  Objects live in a store and are named by references.  \<open>Road\<close> keeps the reference
  to the caller's array of rounds; \<open>array\<close> is the abstract member that the concrete
  subclass supplies.
\<close>

type_synonym ref = nat

record 'a Road =
  row :: number
  column :: number
  results :: ref
  array :: "'a RoadArray"

text \<open>
  The constructor of \<open>Road\<close>.  Its last argument stands for the backing array of the
  concrete subclass; the body only validates the two dimensions.
\<close>

definition Road_constructor ::
  "number \<Rightarrow> number \<Rightarrow> ref \<Rightarrow> 'a RoadArray \<Rightarrow> error + 'a Road" where
  "Road_constructor r c rs arr =
     (if \<not> Number_isInteger r \<or> \<not> Number_isInteger c \<or> lessEqZero r \<or> lessEqZero c
      then Inl (Error ''Row/Column must be positive integer'')
      else Inr \<lparr>row = r, column = c, results = rs, array = arr\<rparr>)"

definition rowCount :: "('a, 'b) Road_scheme \<Rightarrow> number" where
  "rowCount this = row this"

definition columnCount :: "('a, 'b) Road_scheme \<Rightarrow> number" where
  "columnCount this = column this"

text \<open>\<open>this.array[rowIndex][columnIndex]\<close>, both indices arbitrary numbers.\<close>

definition getItem :: "('a, 'b) Road_scheme \<Rightarrow> number \<Rightarrow> number \<Rightarrow> error + 'a option" where
  "getItem this rowIdx colIdx =
     (case arrayIndex (array this) rowIdx of
        None \<Rightarrow> Inl TypeError
      | Some rw \<Rightarrow> Inr (case arrayIndex rw colIdx of None \<Rightarrow> None | Some x \<Rightarrow> x))"

section \<open>The prediction engine\<close>

text \<open>
  The store: round objects and arrays of references to them, allocated at increasing
  addresses.  A reference below \<open>nextRef\<close> is in use.
\<close>

record heap =
  rounds :: "ref \<Rightarrow> RoundResult"
  arrays :: "ref \<Rightarrow> ref list"
  nextRef :: ref

text \<open>\<open>RoundResult.from(source)\<close>: a new object with the four fields of the source.\<close>

definition RoundResult_from :: "heap \<Rightarrow> ref \<Rightarrow> ref \<times> heap" where
  "RoundResult_from h source =
     (nextRef h,
      h\<lparr>rounds := (rounds h)
           (nextRef h :=
              \<lparr>RoundResult.order = RoundResult.order (rounds h source),
               result = result (rounds h source),
               gameResult = gameResult (rounds h source),
               pairResult = pairResult (rounds h source)\<rparr>),
        nextRef := Suc (nextRef h)\<rparr>)"

text \<open>The callback of \<open>roundResults.map\<close>, run over the elements in order.\<close>

fun mapFrom :: "heap \<Rightarrow> ref list \<Rightarrow> ref list \<times> heap" where
  "mapFrom h [] = ([], h)"
| "mapFrom h (source # sources) =
     (case RoundResult_from h source of
        (r, h1) \<Rightarrow> (case mapFrom h1 sources of (rs, h2) \<Rightarrow> (r # rs, h2)))"

text \<open>The array that \<open>map\<close> returns, and \<open>push\<close> on an array.\<close>

definition newArray :: "heap \<Rightarrow> ref list \<Rightarrow> ref \<times> heap" where
  "newArray h xs =
     (nextRef h, h\<lparr>arrays := (arrays h)(nextRef h := xs), nextRef := Suc (nextRef h)\<rparr>)"

definition push :: "heap \<Rightarrow> ref \<Rightarrow> ref \<Rightarrow> heap" where
  "push h a x = h\<lparr>arrays := (arrays h)(a := arrays h a @ [x])\<rparr>"

text \<open>
  \<open>DownRoad extends Road<DownRoadItem>\<close>.  \<open>getPrediction\<close> reads the history as
  \<open>this.roundResults\<close>, but neither \<open>Road\<close> nor \<open>DownRoad\<close> declares or assigns a
  member of that name: \<open>Road\<close> keeps the history in \<open>results\<close>.  The field
  \<open>roundResults\<close> is what the property read yields, \<open>None\<close> for \<open>undefined\<close>;
  \<open>Some a\<close> is an object that got the property from elsewhere.
\<close>

record DownRoad = "DownRoadItem Road" +
  roundResults :: "ref option"

text \<open>
  \<open>DownRoad\<close> declares no constructor, so constructing a derived road runs the
  constructor of \<open>Road\<close>, which sets \<open>row\<close>, \<open>column\<close> and \<open>results\<close> and
  nothing else.
\<close>

definition DownRoad_constructor ::
  "number \<Rightarrow> number \<Rightarrow> ref \<Rightarrow> DownRoadItem RoadArray \<Rightarrow> error + DownRoad" where
  "DownRoad_constructor r c rs arr =
     (case Road_constructor r c rs arr of
        Inl e \<Rightarrow> Inl e
      | Inr road \<Rightarrow>
          Inr \<lparr>row = row road, column = column road, results = results road,
               array = array road, roundResults = None\<rparr>)"

text \<open>
  The first two statements of \<open>getPrediction\<close> once \<open>this.roundResults\<close> has been
  read as the array \<open>a\<close>: the copied history with the hypothetical round pushed.  The
  result is the reference of \<open>fakeRoundResults\<close>.
\<close>

definition fakeRoundResultsOf :: "heap \<Rightarrow> ref \<Rightarrow> ref \<Rightarrow> ref \<times> heap" where
  "fakeRoundResultsOf h a fakeNextRound =
     (case mapFrom h (arrays h a) of
        (copies, h1) \<Rightarrow>
          (case newArray h1 copies of
             (fakeRoundResults, h2) \<Rightarrow> (fakeRoundResults, push h2 fakeRoundResults fakeNextRound)))"

text \<open>
  \<open>getPrediction\<close>.  Calling \<open>map\<close> on an undefined \<open>this.roundResults\<close> raises
  \<open>TypeError\<close> before anything is allocated.  \<open>SharedBigRoad\<close> is not part of the
  sources at hand; what \<open>new SharedBigRoad(row, column, rounds).rawArray\<close> yields is
  the parameter \<open>rawArrayOf\<close>, a function of the two dimensions and of the rounds'
  values.
\<close>

definition getPrediction ::
  "(number \<Rightarrow> number \<Rightarrow> RoundResult list \<Rightarrow> BigRoadItem RoadArray) \<Rightarrow>
     heap \<Rightarrow> DownRoad \<Rightarrow> ref \<Rightarrow> DownRoadGap \<Rightarrow> (error + bool option) \<times> heap" where
  "getPrediction rawArrayOf h this fakeNextRound downRoadGap =
     (case roundResults this of
        None \<Rightarrow> (Inl TypeError, h)
      | Some a \<Rightarrow>
          (case fakeRoundResultsOf h a fakeNextRound of
             (fakeRoundResults, h') \<Rightarrow>
               (case generateDownRoadData
                       (rawArrayOf (row this) (column this)
                          (map (rounds h') (arrays h' fakeRoundResults)))
                       downRoadGap of
                  Inl e \<Rightarrow> (Inl e, h')
                | Inr fakeDownRoadData \<Rightarrow>
                    (Inr (case arrayGet fakeDownRoadData (int (length fakeDownRoadData) - 1) of
                            None \<Rightarrow> None
                          | Some fakeNextDownRoadItem \<Rightarrow>
                              Some (repetition fakeNextDownRoadItem)),
                     h'))))"

section \<open>Vocabulary of the properties\<close>

text \<open>
  The cell of a grid at a position, absent (\<open>None\<close>) outside the grid as well as at
  a hole.
\<close>

definition cell :: "'a RoadArray \<Rightarrow> int \<Rightarrow> int \<Rightarrow> 'a option" where
  "cell grid r c = (case arrayGet grid r of None \<Rightarrow> None | Some rw \<Rightarrow> rowGet rw c)"

text \<open>
  The occupied-cell length of a column; a column index that is negative or not below
  the greatest row length names no column.
\<close>

definition columnLength :: "'a RoadArray \<Rightarrow> int \<Rightarrow> nat option" where
  "columnLength grid c =
     (if 0 \<le> c \<and> c < int (maxColumnCountOf grid)
      then Some (length (filter (\<lambda>rw. rowGet rw c \<noteq> None) grid)) else None)"

text \<open>
  The order from which marks are produced: that of the cell at row 1 of column
  \<open>gap\<close>, else that of the cell at row 0 of column \<open>gap + 1\<close>, else none.
\<close>

definition beginOrder :: "BigRoadItem RoadArray \<Rightarrow> DownRoadGap \<Rightarrow> int option" where
  "beginOrder grid gap =
     (case cell grid 1 (gapValue gap) of
        Some it \<Rightarrow> Some (BigRoadItem.order it)
      | None \<Rightarrow>
          (case cell grid 0 (gapValue gap + 1) of
             Some it \<Rightarrow> Some (BigRoadItem.order it)
           | None \<Rightarrow> None))"

text \<open>The cells the scan records (\<open>indexArr\<close> before it is sorted).\<close>

definition recordedCells :: "BigRoadItem RoadArray \<Rightarrow> IndexItem list" where
  "recordedCells grid = fst (scanGraph grid (maxColumnCountOf grid))"

text \<open>The recorded cells of order at least \<open>b\<close>, in the order of the sorted \<open>indexArr\<close>.\<close>

definition emittingCells :: "BigRoadItem RoadArray \<Rightarrow> int \<Rightarrow> IndexItem list" where
  "emittingCells grid b =
     filter (\<lambda>it. b \<le> IndexItem.order it) (sort_key IndexItem.order (recordedCells grid))"

text \<open>What one pass of the inner loop body records at row \<open>r\<close> of column \<open>c\<close>.\<close>

definition recordedAt :: "BigRoadItem RoadArray \<Rightarrow> nat \<Rightarrow> nat \<Rightarrow> IndexItem list" where
  "recordedAt grid c r =
     (case rowGet (grid ! r) (int c) of
        None \<Rightarrow> []
      | Some item \<Rightarrow>
          [\<lparr>rowIndex = int r, columnIndex = int c, order = BigRoadItem.order item\<rparr>])"

text \<open>The cells recorded from column \<open>c\<close> while the inner loop runs over the rows \<open>rs\<close>.\<close>

definition columnCells :: "BigRoadItem RoadArray \<Rightarrow> nat \<Rightarrow> nat list \<Rightarrow> IndexItem list" where
  "columnCells grid c rs = concat (map (recordedAt grid c) rs)"

text \<open>
  The mark of a recorded cell, in terms of column lengths and cells of the grid: at
  row 0 the lengths of the columns \<open>gap + 1\<close> and \<open>1\<close> to the left are compared;
  below row 0 the mark is blue exactly when, \<open>gap\<close> columns to the left, the cell one
  row up is present and the cell of the same row is absent.
\<close>

definition markOf :: "BigRoadItem RoadArray \<Rightarrow> int \<Rightarrow> IndexItem \<Rightarrow> DownRoadItem" where
  "markOf grid g it =
     \<lparr>DownRoadItem.order = IndexItem.order it,
      repetition =
        (if rowIndex it = 0
         then columnLength grid (columnIndex it - g - 1) = columnLength grid (columnIndex it - 1)
         else \<not> (cell grid (rowIndex it - 1) (columnIndex it - g) \<noteq> None \<and>
                 cell grid (rowIndex it) (columnIndex it - g) = None))\<rparr>"

text \<open>A number that is a positive integer.\<close>

definition positiveInteger :: "number \<Rightarrow> bool" where
  "positiveInteger x = (\<exists>n::nat. 0 < n \<and> x = Finite (of_nat n))"

text \<open>A number that is an index into a list: one of \<open>0, ..., length xs - 1\<close>.\<close>

definition validIndex :: "'a list \<Rightarrow> number \<Rightarrow> bool" where
  "validIndex xs n = (\<exists>i::nat. i < length xs \<and> n = Finite (of_nat i))"

section \<open>Examples\<close>

text \<open>
  Column lengths 4, 3, 2 with the orders 1 to 9 running down the columns; the cells
  of row 0 have the orders 1, 5, 8.
\<close>

definition grid432 :: "BigRoadItem RoadArray" where
  "grid432 =
     [[Some \<lparr>BigRoadItem.order = 1\<rparr>, Some \<lparr>BigRoadItem.order = 5\<rparr>, Some \<lparr>BigRoadItem.order = 8\<rparr>],
      [Some \<lparr>BigRoadItem.order = 2\<rparr>, Some \<lparr>BigRoadItem.order = 6\<rparr>, Some \<lparr>BigRoadItem.order = 9\<rparr>],
      [Some \<lparr>BigRoadItem.order = 3\<rparr>, Some \<lparr>BigRoadItem.order = 7\<rparr>],
      [Some \<lparr>BigRoadItem.order = 4\<rparr>]]"

text \<open>Two rows, column lengths 1, 2, 1, 1, orders 1 to 5 in the order of play.\<close>

definition grid1211 :: "BigRoadItem RoadArray" where
  "grid1211 =
     [[Some \<lparr>BigRoadItem.order = 1\<rparr>, Some \<lparr>BigRoadItem.order = 2\<rparr>,
       Some \<lparr>BigRoadItem.order = 4\<rparr>, Some \<lparr>BigRoadItem.order = 5\<rparr>],
      [None, Some \<lparr>BigRoadItem.order = 3\<rparr>]]"

text \<open>
  A store with two recorded rounds (banker, then player) in the array at reference 2,
  and a hypothetical third round (banker) at reference 3.
\<close>

definition exampleHeap :: heap where
  "exampleHeap =
     \<lparr>rounds =
        (\<lambda>_. \<lparr>RoundResult.order = 0, result = 0, gameResult = BankerWin, pairResult = NoPair\<rparr>)
          (1 := \<lparr>RoundResult.order = 1, result = 0, gameResult = PlayerWin, pairResult = NoPair\<rparr>,
           3 := \<lparr>RoundResult.order = 2, result = 0, gameResult = BankerWin, pairResult = NoPair\<rparr>),
      arrays = (\<lambda>_. [])(2 := [0, 1]),
      nextRef = 4\<rparr>"

text \<open>
  The derived road of 6 rows and 10 columns that the constructor builds over that
  history.
\<close>

definition exampleRoad :: DownRoad where
  "exampleRoad =
     \<lparr>row = Finite 6, column = Finite 10, results = 2, array = [], roundResults = None\<rparr>"

text \<open>
  Two grids of two rows that differ in one cell: the second has the additional cell of
  order 5 at row 1 of column 1.
\<close>

definition gridFlat :: "BigRoadItem RoadArray" where
  "gridFlat =
     [[Some \<lparr>BigRoadItem.order = 1\<rparr>, Some \<lparr>BigRoadItem.order = 2\<rparr>,
       Some \<lparr>BigRoadItem.order = 3\<rparr>, Some \<lparr>BigRoadItem.order = 4\<rparr>],
      []]"

definition gridFlatPlus :: "BigRoadItem RoadArray" where
  "gridFlatPlus =
     [[Some \<lparr>BigRoadItem.order = 1\<rparr>, Some \<lparr>BigRoadItem.order = 2\<rparr>,
       Some \<lparr>BigRoadItem.order = 3\<rparr>, Some \<lparr>BigRoadItem.order = 4\<rparr>],
      [None, Some \<lparr>BigRoadItem.order = 5\<rparr>]]"

section \<open>Reading arrays and grids\<close>

lemma gapValue_range: "gapValue g \<in> {1, 2, 3}"
  by (cases g) simp_all

lemma arrayGet_nth: "i < length xs \<Longrightarrow> arrayGet xs (int i) = Some (xs ! i)"
  by (simp add: arrayGet_def)

lemma gridGet_cell:
  "0 \<le> r \<Longrightarrow> r < int (length grid) \<Longrightarrow> gridGet grid r c = Inr (cell grid r c)"
  by (simp add: gridGet_def cell_def arrayGet_def)

lemma gridGet_outside:
  "r < 0 \<or> int (length grid) \<le> r \<Longrightarrow> gridGet grid r c = Inl TypeError"
  by (auto simp: gridGet_def arrayGet_def)

section \<open>The scan of the grid\<close>

lemma scanCell_eq:
  "scanCell g c r st = (fst st + length (recordedAt g c r), snd st @ recordedAt g c r)"
  by (simp add: scanCell_def recordedAt_def split: option.split)

lemma fold_scanCell:
  "fold (scanCell g c) rs st = (fst st + length (columnCells g c rs), snd st @ columnCells g c rs)"
  by (induction rs arbitrary: st) (simp_all add: scanCell_eq columnCells_def)

lemma scanColumn_eq:
  "scanColumn g c st =
     (fst st @ columnCells g c [0..<length g], snd st @ [length (columnCells g c [0..<length g])])"
  by (simp add: scanColumn_def fold_scanCell)

lemma fold_scanColumn:
  "fold (scanColumn g) cs st =
     (fst st @ concat (map (\<lambda>c. columnCells g c [0..<length g]) cs),
      snd st @ map (\<lambda>c. length (columnCells g c [0..<length g])) cs)"
  by (induction cs arbitrary: st) (simp_all add: scanColumn_eq)

lemma scanGraph_eq:
  "scanGraph g n =
     (concat (map (\<lambda>c. columnCells g c [0..<length g]) [0..<n]),
      map (\<lambda>c. length (columnCells g c [0..<length g])) [0..<n])"
  by (simp add: scanGraph_def fold_scanColumn)

lemma length_columnCells_rows:
  "length (columnCells g c rs) = length (filter (\<lambda>r. rowGet (g ! r) (int c) \<noteq> None) rs)"
  by (induction rs) (auto simp: columnCells_def recordedAt_def split: option.splits)

lemma length_columnCells:
  "length (columnCells g c [0..<length g]) = length (filter (\<lambda>rw. rowGet rw (int c) \<noteq> None) g)"
proof -
  have "filter (\<lambda>rw. rowGet rw (int c) \<noteq> None) (map (nth g) [0..<length g]) =
        map (nth g) (filter (\<lambda>r. rowGet (g ! r) (int c) \<noteq> None) [0..<length g])"
    by (simp add: filter_map comp_def)
  then have "length (filter (\<lambda>rw. rowGet rw (int c) \<noteq> None) g) =
        length (filter (\<lambda>r. rowGet (g ! r) (int c) \<noteq> None) [0..<length g])"
    by (simp add: map_nth)
  then show ?thesis by (simp add: length_columnCells_rows)
qed

lemma arrayGet_lengthArr:
  "arrayGet (snd (scanGraph g (maxColumnCountOf g))) k = columnLength g k"
proof (cases "0 \<le> k \<and> k < int (maxColumnCountOf g)")
  case True
  then have "nat k < maxColumnCountOf g" by linarith
  with True show ?thesis
    by (simp add: scanGraph_eq arrayGet_def columnLength_def length_columnCells)
next
  case False
  then show ?thesis
    by (auto simp add: scanGraph_eq arrayGet_def columnLength_def)
qed

lemma recordedAt_member:
  "it \<in> set (recordedAt g c r) \<longleftrightarrow>
     (\<exists>item. rowGet (g ! r) (int c) = Some item \<and>
         it = \<lparr>rowIndex = int r, columnIndex = int c, order = BigRoadItem.order item\<rparr>)"
  by (cases "rowGet (g ! r) (int c)") (auto simp: recordedAt_def)

lemma set_recordedCells:
  "set (recordedCells g) =
     (\<Union>c \<in> {0..<maxColumnCountOf g}. \<Union>r \<in> {0..<length g}. set (recordedAt g c r))"
  by (simp add: recordedCells_def scanGraph_eq columnCells_def)

lemma recordedCells_member:
  "it \<in> set (recordedCells g) \<longleftrightarrow>
     (\<exists>r c item. r < length g \<and> c < maxColumnCountOf g \<and> rowGet (g ! r) (int c) = Some item \<and>
         it = \<lparr>rowIndex = int r, columnIndex = int c, order = BigRoadItem.order item\<rparr>)"
  unfolding set_recordedCells UN_iff recordedAt_member Bex_def atLeastLessThan_iff
  by (simp only: le0 simp_thms) blast

lemma recordedCells_in_grid:
  assumes "it \<in> set (recordedCells g)"
  shows "0 \<le> rowIndex it \<and> rowIndex it < int (length g)"
  using assms by (auto simp: recordedCells_member)


section \<open>What the builder returns\<close>

lemma emitItem_in_grid:
  assumes "0 \<le> rowIndex it" and "rowIndex it < int (length g)"
  shows "emitItem g gv (snd (scanGraph g (maxColumnCountOf g))) it = Inr (markOf g gv it)"
proof (cases "rowIndex it = 0")
  case True
  then show ?thesis by (simp add: emitItem_def markOf_def arrayGet_lengthArr)
next
  case False
  with assms have up: "0 \<le> rowIndex it - 1" "rowIndex it - 1 < int (length g)" by simp_all
  from False show ?thesis
    by (simp add: emitItem_def markOf_def gridGet_cell [OF up] gridGet_cell [OF assms])
qed

lemma forEachItem_eq:
  assumes "\<forall>it \<in> set items. emitItem g gv la it = Inr (mk it)"
  shows "forEachItem g gv la b items acc =
           Inr (acc @ map mk (filter (\<lambda>it. b \<le> IndexItem.order it) items))"
  using assms by (induction items arbitrary: acc) simp_all

lemma generateDownRoadData_short:
  assumes "length g < 2"
  shows "generateDownRoadData g gap = Inl TypeError"
  using assms by (simp add: generateDownRoadData_def gridGet_outside)

lemma beginIndexOf_cells:
  "beginIndexOf (cell g 1 (gapValue gap)) (cell g 0 (gapValue gap + 1)) = beginOrder g gap"
  by (simp add: beginIndexOf_def beginOrder_def)

lemma generateDownRoadData_two_rows:
  assumes "2 \<le> length g"
  shows "generateDownRoadData g gap =
           (case beginOrder g gap of
              None \<Rightarrow> Inr []
            | Some b \<Rightarrow> Inr (map (markOf g (gapValue gap)) (emittingCells g b)))"
proof -
  from assms have len: "(1::int) < int (length g)" "(0::int) < int (length g)" by linarith+
  have r1: "gridGet g 1 (gapValue gap) = Inr (cell g 1 (gapValue gap))"
    and r0: "gridGet g 0 (gapValue gap + 1) = Inr (cell g 0 (gapValue gap + 1))"
    using len by (simp_all add: gridGet_cell)
  show ?thesis
  proof (cases "beginOrder g gap")
    case None
    then show ?thesis
      by (simp add: generateDownRoadData_def r1 r0 beginIndexOf_cells)
  next
    case (Some b)
    let ?la = "snd (scanGraph g (maxColumnCountOf g))"
    have "\<forall>it \<in> set (sort_key IndexItem.order (recordedCells g)).
            emitItem g (gapValue gap) ?la it = Inr (markOf g (gapValue gap) it)"
      using recordedCells_in_grid by (simp add: emitItem_in_grid)
    then have "forEachItem g (gapValue gap) ?la b (sort_key IndexItem.order (recordedCells g)) [] =
        Inr (map (markOf g (gapValue gap)) (emittingCells g b))"
      unfolding emittingCells_def by (simp only: forEachItem_eq append_Nil)
    with Some show ?thesis
      by (simp add: generateDownRoadData_def r1 r0 beginIndexOf_cells recordedCells_def
            case_prod_beta)
  qed
qed

lemma generateDownRoadData_returns_iff:
  "(\<exists>marks. generateDownRoadData g gap = Inr marks) \<longleftrightarrow> 2 \<le> length g"
proof (cases "2 \<le> length g")
  case True
  then show ?thesis
    by (simp add: generateDownRoadData_two_rows split: option.split)
next
  case False
  then have "length g < 2" by simp
  then show ?thesis by (simp add: generateDownRoadData_short)
qed

lemma length_row_le_maxColumnCountOf:
  "rw \<in> set g \<Longrightarrow> length rw \<le> maxColumnCountOf g"
  by (induction g) (auto simp: maxColumnCountOf_def)

lemma rowGet_Some_in_row: "rowGet rw c = Some x \<Longrightarrow> 0 \<le> c \<and> c < int (length rw)"
  by (auto simp: rowGet_def arrayGet_def split: if_splits)

lemma cell_Some_iff:
  "cell g r c = Some x \<longleftrightarrow> 0 \<le> r \<and> r < int (length g) \<and> rowGet (g ! nat r) c = Some x"
  by (auto simp: cell_def arrayGet_def)

lemma recordedCells_present:
  "it \<in> set (recordedCells g) \<longleftrightarrow>
     (\<exists>item. cell g (rowIndex it) (columnIndex it) = Some item \<and>
             IndexItem.order it = BigRoadItem.order item)"
proof
  assume "it \<in> set (recordedCells g)"
  then obtain r c item where rc: "r < length g" "c < maxColumnCountOf g"
      "rowGet (g ! r) (int c) = Some item"
      "it = \<lparr>rowIndex = int r, columnIndex = int c, order = BigRoadItem.order item\<rparr>"
    unfolding recordedCells_member by blast
  then have "cell g (rowIndex it) (columnIndex it) = Some item" by (simp add: cell_Some_iff)
  with rc show "\<exists>item. cell g (rowIndex it) (columnIndex it) = Some item \<and>
             IndexItem.order it = BigRoadItem.order item" by simp
next
  assume "\<exists>item. cell g (rowIndex it) (columnIndex it) = Some item \<and>
             IndexItem.order it = BigRoadItem.order item"
  then obtain item where c: "cell g (rowIndex it) (columnIndex it) = Some item"
    and o: "IndexItem.order it = BigRoadItem.order item" by blast
  from c have r: "0 \<le> rowIndex it" "rowIndex it < int (length g)"
    and g: "rowGet (g ! nat (rowIndex it)) (columnIndex it) = Some item"
    by (simp_all add: cell_Some_iff)
  from r have rn: "nat (rowIndex it) < length g" by linarith
  then have "g ! nat (rowIndex it) \<in> set g" by simp
  then have "length (g ! nat (rowIndex it)) \<le> maxColumnCountOf g"
    by (rule length_row_le_maxColumnCountOf)
  with rowGet_Some_in_row [OF g]
  have cn: "nat (columnIndex it) < maxColumnCountOf g" and c0: "0 \<le> columnIndex it"
    by linarith+
  have "it = \<lparr>rowIndex = int (nat (rowIndex it)), columnIndex = int (nat (columnIndex it)),
               order = BigRoadItem.order item\<rparr>"
    using r c0 o by simp
  with rn cn g c0 show "it \<in> set (recordedCells g)"
    unfolding recordedCells_member by (metis int_nat_eq)
qed

lemma set_emittingCells:
  "set (emittingCells g b) = {it \<in> set (recordedCells g). b \<le> IndexItem.order it}"
  by (auto simp: emittingCells_def)

lemma length_emittingCells:
  "length (emittingCells g b) = length (filter (\<lambda>it. b \<le> IndexItem.order it) (recordedCells g))"
  by (simp add: emittingCells_def filter_sort)

lemma generateDownRoadData_Inr:
  assumes "generateDownRoadData g gap = Inr marks"
  shows "2 \<le> length g"
    and "beginOrder g gap = None \<Longrightarrow> marks = []"
    and "beginOrder g gap = Some b \<Longrightarrow> marks = map (markOf g (gapValue gap)) (emittingCells g b)"
proof -
  from assms show two: "2 \<le> length g" using generateDownRoadData_returns_iff by blast
  from assms generateDownRoadData_two_rows [OF two, of gap]
  show "beginOrder g gap = None \<Longrightarrow> marks = []"
    and "beginOrder g gap = Some b \<Longrightarrow> marks = map (markOf g (gapValue gap)) (emittingCells g b)"
    by simp_all
qed

lemma sorted_orders_emittingCells:
  "sorted (map IndexItem.order (emittingCells g b))"
  unfolding emittingCells_def by (rule sorted_filter) (rule sorted_sort_key)

lemma distinct_orders_emittingCells:
  assumes "distinct (map IndexItem.order (recordedCells g))"
  shows "distinct (map IndexItem.order (emittingCells g b))"
proof -
  from assms have "distinct (map IndexItem.order (sort_key IndexItem.order (recordedCells g)))"
    by (simp add: distinct_map)
  then show ?thesis unfolding emittingCells_def by (rule distinct_map_filter)
qed

lemma orders_markOf: "map DownRoadItem.order (map (markOf g gv) its) = map IndexItem.order its"
  by (simp add: markOf_def comp_def)

lemma maxColumnCountOf_bound:
  assumes "r < length g"
  shows "length (g ! r) \<le> maxColumnCountOf g"
  using assms by (simp add: length_row_le_maxColumnCountOf)

lemma cell_beyond_columns:
  assumes "int (maxColumnCountOf g) \<le> c"
  shows "cell g r c = None"
proof (cases "cell g r c")
  case None
  then show ?thesis .
next
  case (Some x)
  then have r: "0 \<le> r" "r < int (length g)" and g: "rowGet (g ! nat r) c = Some x"
    by (simp_all add: cell_Some_iff)
  from r have "nat r < length g" by linarith
  then have "length (g ! nat r) \<le> maxColumnCountOf g" by (rule maxColumnCountOf_bound)
  with rowGet_Some_in_row [OF g] assms show ?thesis by linarith
qed

lemma generateDownRoadData_few_columns:
  assumes "2 \<le> length g" and "int (maxColumnCountOf g) \<le> gapValue gap"
  shows "generateDownRoadData g gap = Inr []"
proof -
  from assms(2) have "cell g 1 (gapValue gap) = None" "cell g 0 (gapValue gap + 1) = None"
    by (simp_all add: cell_beyond_columns)
  then have "beginOrder g gap = None" by (simp add: beginOrder_def)
  with assms(1) show ?thesis by (simp add: generateDownRoadData_two_rows)
qed

lemma generateDownRoadData_no_cells:
  assumes "2 \<le> length g" and "\<forall>r c. cell g r c = None"
  shows "generateDownRoadData g gap = Inr []"
proof -
  from assms(2) have "beginOrder g gap = None" by (simp add: beginOrder_def)
  with assms(1) show ?thesis by (simp add: generateDownRoadData_two_rows)
qed

section \<open>The marks of the derived roads\<close>

text \<open>
  In the statements below, \<open>emittingCells grid b\<close> lists the recorded cells of order at
  least \<open>b\<close> in the order in which the builder visits them (\<open>set_emittingCells\<close>,
  \<open>length_emittingCells\<close>); the builder pushes one mark per visited cell, so the mark
  emitted for the \<open>k\<close>-th of these cells is \<open>marks ! k\<close>.
\<close>

text \<open>
  Claim C1, as amended.  For every primary grid and every gap, the mark emitted for a
  recorded cell at row 0 of column \<open>c\<close> whose order is at least the begin order
  carries that cell's order, and its \<open>repetition\<close> says whether the occupied-cell
  length of column \<open>c - gap - 1\<close> equals the occupied-cell length of column
  \<open>c - 1\<close> (not of column \<open>c - gap\<close>); an absent column equals only an absent
  column.
\<close>

theorem row0_repetition:
  assumes "generateDownRoadData grid gap = Inr marks"
    and "beginOrder grid gap = Some b"
    and "k < length (emittingCells grid b)"
    and "rowIndex (emittingCells grid b ! k) = 0"
  shows "k < length marks \<and>
         marks ! k =
           \<lparr>DownRoadItem.order = IndexItem.order (emittingCells grid b ! k),
            repetition =
              (columnLength grid (columnIndex (emittingCells grid b ! k) - gapValue gap - 1) =
               columnLength grid (columnIndex (emittingCells grid b ! k) - 1))\<rparr>"
  using assms generateDownRoadData_Inr(3) [OF assms(1,2)] by (simp add: markOf_def)

theorem row0_repetition_witness:
  "generateDownRoadData grid432 BigEyeRoadGap =
     Inr [\<lparr>DownRoadItem.order = 6, repetition = True\<rparr>,
          \<lparr>DownRoadItem.order = 7, repetition = True\<rparr>,
          \<lparr>DownRoadItem.order = 8, repetition = False\<rparr>,
          \<lparr>DownRoadItem.order = 9, repetition = True\<rparr>] \<and>
   beginOrder grid432 BigEyeRoadGap = Some 6 \<and>
   emittingCells grid432 6 ! 2 = \<lparr>rowIndex = 0, columnIndex = 2, order = 8\<rparr> \<and>
   columnLength grid432 (2 - gapValue BigEyeRoadGap - 1) = Some 4 \<and>
   columnLength grid432 (2 - 1) = Some 3 \<and>
   [\<lparr>DownRoadItem.order = 6, repetition = True\<rparr>,
    \<lparr>DownRoadItem.order = 7, repetition = True\<rparr>,
    \<lparr>DownRoadItem.order = 8, repetition = False\<rparr>,
    \<lparr>DownRoadItem.order = 9, repetition = True\<rparr>] ! 2 =
     \<lparr>DownRoadItem.order = 8, repetition = (Some (4::nat) = Some 3)\<rparr>"
proof -
  have run: "generateDownRoadData grid432 BigEyeRoadGap =
     Inr [\<lparr>DownRoadItem.order = 6, repetition = True\<rparr>,
          \<lparr>DownRoadItem.order = 7, repetition = True\<rparr>,
          \<lparr>DownRoadItem.order = 8, repetition = False\<rparr>,
          \<lparr>DownRoadItem.order = 9, repetition = True\<rparr>]"
    by code_simp
  have b: "beginOrder grid432 BigEyeRoadGap = Some 6" by code_simp
  have k: "2 < length (emittingCells grid432 6)" by code_simp
  have c: "emittingCells grid432 6 ! 2 = \<lparr>rowIndex = 0, columnIndex = 2, order = 8\<rparr>"
    by code_simp
  have r: "rowIndex (emittingCells grid432 6 ! 2) = 0" by (simp add: c)
  have l1: "columnLength grid432 (2 - gapValue BigEyeRoadGap - 1) = Some 4" by code_simp
  have l2: "columnLength grid432 (2 - 1) = Some 3" by code_simp
  from row0_repetition [OF run b k r] run b c l1 l2 show ?thesis by simp
qed

text \<open>
  Claim C1 as it was stated compares column \<open>c - gap - 1\<close> with column \<open>c - gap\<close>.
  With gap 2 and column lengths 1, 2, 1, 1 the cell at row 0 of column 3 gets a red
  mark, since columns 0 and 2 are equally long, while columns 0 and 1 are not.
\<close>

theorem row0_repetition_as_stated_counterexample:
  "generateDownRoadData grid1211 SmallRoadGap =
     Inr [\<lparr>DownRoadItem.order = 5, repetition = True\<rparr>] \<and>
   beginOrder grid1211 SmallRoadGap = Some 5 \<and>
   emittingCells grid1211 5 = [\<lparr>rowIndex = 0, columnIndex = 3, order = 5\<rparr>] \<and>
   (columnLength grid1211 (3 - gapValue SmallRoadGap - 1) =
    columnLength grid1211 (3 - gapValue SmallRoadGap)) = False \<and>
   (columnLength grid1211 (3 - gapValue SmallRoadGap - 1) =
    columnLength grid1211 (3 - 1)) = True"
  by code_simp

text \<open>
  Claim C2.  For every primary grid and every gap, the mark emitted for a recorded cell
  at a row below row 0 whose order is at least the begin order carries that cell's
  order, and its \<open>repetition\<close> is false exactly when, \<open>gap\<close> columns to the left,
  the cell one row up is present and the cell of the same row is absent.
\<close>

theorem lower_row_repetition:
  assumes "generateDownRoadData grid gap = Inr marks"
    and "beginOrder grid gap = Some b"
    and "k < length (emittingCells grid b)"
    and "0 < rowIndex (emittingCells grid b ! k)"
  shows "k < length marks \<and>
         marks ! k =
           \<lparr>DownRoadItem.order = IndexItem.order (emittingCells grid b ! k),
            repetition =
              (\<not> (cell grid (rowIndex (emittingCells grid b ! k) - 1)
                       (columnIndex (emittingCells grid b ! k) - gapValue gap) \<noteq> None \<and>
                   cell grid (rowIndex (emittingCells grid b ! k))
                       (columnIndex (emittingCells grid b ! k) - gapValue gap) = None))\<rparr>"
  using assms generateDownRoadData_Inr(3) [OF assms(1,2)] by (simp add: markOf_def)

theorem lower_row_repetition_witness:
  "generateDownRoadData grid432 SmallRoadGap =
     Inr [\<lparr>DownRoadItem.order = 9, repetition = True\<rparr>] \<and>
   beginOrder grid432 SmallRoadGap = Some 9 \<and>
   emittingCells grid432 9 ! 0 = \<lparr>rowIndex = 1, columnIndex = 2, order = 9\<rparr> \<and>
   cell grid432 (1 - 1) (2 - gapValue SmallRoadGap) = Some \<lparr>BigRoadItem.order = 1\<rparr> \<and>
   cell grid432 1 (2 - gapValue SmallRoadGap) = Some \<lparr>BigRoadItem.order = 2\<rparr> \<and>
   [\<lparr>DownRoadItem.order = 9, repetition = True\<rparr>] ! 0 =
     \<lparr>DownRoadItem.order = 9, repetition = True\<rparr>"
proof -
  have run: "generateDownRoadData grid432 SmallRoadGap =
     Inr [\<lparr>DownRoadItem.order = 9, repetition = True\<rparr>]"
    by code_simp
  have b: "beginOrder grid432 SmallRoadGap = Some 9" by code_simp
  have k: "0 < length (emittingCells grid432 9)" by code_simp
  have c: "emittingCells grid432 9 ! 0 = \<lparr>rowIndex = 1, columnIndex = 2, order = 9\<rparr>"
    by code_simp
  have r: "0 < rowIndex (emittingCells grid432 9 ! 0)" by (simp add: c)
  have c1: "cell grid432 (1 - 1) (2 - gapValue SmallRoadGap) = Some \<lparr>BigRoadItem.order = 1\<rparr>"
    by code_simp
  have c2: "cell grid432 1 (2 - gapValue SmallRoadGap) = Some \<lparr>BigRoadItem.order = 2\<rparr>"
    by code_simp
  from lower_row_repetition [OF run b k r] run b c c1 c2 show ?thesis by simp
qed

text \<open>
  Claim C7.  When the recorded cells of the grid carry pairwise distinct orders, the
  marks the builder returns are strictly ascending by order, without duplicates, every
  mark's order is the order of exactly one recorded cell, and there are at most as many
  marks as recorded cells of order at least the begin order (none when there is no
  begin order).
\<close>

theorem marks_ascending_and_bounded:
  assumes "generateDownRoadData grid gap = Inr marks"
    and "distinct (map IndexItem.order (recordedCells grid))"
  shows "sorted_wrt (<) (map DownRoadItem.order marks) \<and>
         distinct (map DownRoadItem.order marks) \<and>
         (\<forall>m \<in> set marks.
            \<exists>!it. it \<in> set (recordedCells grid) \<and> IndexItem.order it = DownRoadItem.order m) \<and>
         length marks \<le>
           (case beginOrder grid gap of
              None \<Rightarrow> 0
            | Some b \<Rightarrow> length (filter (\<lambda>it. b \<le> IndexItem.order it) (recordedCells grid)))"
proof (cases "beginOrder grid gap")
  case None
  with assms(1) have "marks = []" by (rule generateDownRoadData_Inr(2))
  then show ?thesis by simp
next
  case (Some b)
  with assms(1) have marks: "marks = map (markOf grid (gapValue gap)) (emittingCells grid b)"
    by (rule generateDownRoadData_Inr(3))
  then have orders: "map DownRoadItem.order marks = map IndexItem.order (emittingCells grid b)"
    by (simp only: orders_markOf)
  have d: "distinct (map DownRoadItem.order marks)"
    unfolding orders using assms(2) by (rule distinct_orders_emittingCells)
  have s: "sorted_wrt (<) (map DownRoadItem.order marks)"
    unfolding orders strict_sorted_iff
    using sorted_orders_emittingCells distinct_orders_emittingCells [OF assms(2)] by simp
  have u: "\<exists>!it. it \<in> set (recordedCells grid) \<and> IndexItem.order it = DownRoadItem.order m"
    if "m \<in> set marks" for m
  proof -
    from that marks obtain it where it: "it \<in> set (emittingCells grid b)"
      and m: "m = markOf grid (gapValue gap) it" by auto
    from it have rec: "it \<in> set (recordedCells grid)" by (simp add: set_emittingCells)
    from m have o: "IndexItem.order it = DownRoadItem.order m" by (simp add: markOf_def)
    from assms(2) have inj: "inj_on IndexItem.order (set (recordedCells grid))"
      by (simp add: distinct_map)
    show ?thesis
    proof (rule ex1I [of _ it])
      from rec o show "it \<in> set (recordedCells grid) \<and> IndexItem.order it = DownRoadItem.order m"
        by simp
    next
      fix it'
      assume "it' \<in> set (recordedCells grid) \<and> IndexItem.order it' = DownRoadItem.order m"
      then have r': "it' \<in> set (recordedCells grid)"
        and o': "IndexItem.order it' = IndexItem.order it"
        using o by simp_all
      from inj o' r' rec show "it' = it" by (rule inj_onD)
    qed
  qed
  have l: "length marks = length (filter (\<lambda>it. b \<le> IndexItem.order it) (recordedCells grid))"
    by (simp add: marks length_emittingCells)
  from s d u l Some show ?thesis by simp
qed

theorem marks_ascending_and_bounded_witness:
  "generateDownRoadData grid432 BigEyeRoadGap =
     Inr [\<lparr>DownRoadItem.order = 6, repetition = True\<rparr>,
          \<lparr>DownRoadItem.order = 7, repetition = True\<rparr>,
          \<lparr>DownRoadItem.order = 8, repetition = False\<rparr>,
          \<lparr>DownRoadItem.order = 9, repetition = True\<rparr>] \<and>
   distinct (map IndexItem.order (recordedCells grid432)) \<and>
   sorted_wrt (<) [6, 7, 8, 9 :: int] \<and>
   (\<exists>!it. it \<in> set (recordedCells grid432) \<and> IndexItem.order it = 8) \<and>
   (4::nat) \<le> length (filter (\<lambda>it. 6 \<le> IndexItem.order it) (recordedCells grid432))"
proof -
  have run: "generateDownRoadData grid432 BigEyeRoadGap =
     Inr [\<lparr>DownRoadItem.order = 6, repetition = True\<rparr>,
          \<lparr>DownRoadItem.order = 7, repetition = True\<rparr>,
          \<lparr>DownRoadItem.order = 8, repetition = False\<rparr>,
          \<lparr>DownRoadItem.order = 9, repetition = True\<rparr>]"
    by code_simp
  have d: "distinct (map IndexItem.order (recordedCells grid432))" by code_simp
  have b: "beginOrder grid432 BigEyeRoadGap = Some 6" by code_simp
  from marks_ascending_and_bounded [OF run d] run d b show ?thesis by simp
qed

section \<open>Grids of fewer than two rows\<close>

text \<open>
  The builder reads \<open>bigRoadGraph[1][rowGap]\<close> before anything else that depends on
  the rows, so it raises \<open>TypeError\<close> on every grid of fewer than two rows
  (\<open>generateDownRoadData_short\<close>) and returns on every other grid
  (\<open>generateDownRoadData_returns_iff\<close>).  On a grid of at least two rows it returns the
  empty sequence when no row reaches beyond column \<open>gap\<close>
  (\<open>generateDownRoadData_few_columns\<close>) or no cell is present
  (\<open>generateDownRoadData_no_cells\<close>), and otherwise what
  \<open>generateDownRoadData_two_rows\<close> says.
\<close>

text \<open>
  Claim C3 at a grid of one row.  The cell at row 0 of column \<open>gap + 1\<close> is present,
  so the begin order would be 3 and the cell of order 3 would get a mark; the builder
  raises \<open>TypeError\<close> instead.
\<close>

theorem generateDownRoadData_one_row_raises:
  "generateDownRoadData
     [[Some \<lparr>BigRoadItem.order = 1\<rparr>, Some \<lparr>BigRoadItem.order = 2\<rparr>,
       Some \<lparr>BigRoadItem.order = 3\<rparr>]] BigEyeRoadGap = Inl TypeError \<and>
   cell [[Some \<lparr>BigRoadItem.order = 1\<rparr>, Some \<lparr>BigRoadItem.order = 2\<rparr>,
          Some \<lparr>BigRoadItem.order = 3\<rparr>]] 0 (gapValue BigEyeRoadGap + 1) =
     Some \<lparr>BigRoadItem.order = 3\<rparr>"
  by code_simp

text \<open>
  Claim C4 at the grid without rows.  For each of the three gaps the builder raises
  \<open>TypeError\<close> where an empty sequence is expected.
\<close>

theorem generateDownRoadData_no_rows_raises:
  "generateDownRoadData [] BigEyeRoadGap = Inl TypeError \<and>
   generateDownRoadData [] SmallRoadGap = Inl TypeError \<and>
   generateDownRoadData [] CockroachRoadGap = Inl TypeError"
  by code_simp

section \<open>The grid abstraction: dimensions and lookup\<close>

lemma rat_nat_floor:
  fixes q :: rat
  shows "(q = of_int \<lfloor>q\<rfloor> \<and> 0 \<le> q) \<longleftrightarrow> (\<exists>i::nat. q = of_nat i)"
proof
  assume a: "q = of_int \<lfloor>q\<rfloor> \<and> 0 \<le> q"
  then have "0 \<le> \<lfloor>q\<rfloor>" by simp
  then have "of_int \<lfloor>q\<rfloor> = (of_nat (nat \<lfloor>q\<rfloor>) :: rat)" by simp
  with a have "q = of_nat (nat \<lfloor>q\<rfloor>)" by simp
  then show "\<exists>i::nat. q = of_nat i" ..
next
  assume "\<exists>i::nat. q = of_nat i"
  then obtain i :: nat where "q = of_nat i" ..
  then show "q = of_int \<lfloor>q\<rfloor> \<and> 0 \<le> q" by simp
qed

lemma positiveInteger_iff: "positiveInteger x \<longleftrightarrow> Number_isInteger x \<and> \<not> lessEqZero x"
proof (cases x)
  case (Finite q)
  show ?thesis
  proof
    assume "positiveInteger x"
    then obtain n :: nat where "0 < n" "q = of_nat n"
      using Finite by (auto simp: positiveInteger_def)
    then show "Number_isInteger x \<and> \<not> lessEqZero x" using Finite by simp
  next
    assume a: "Number_isInteger x \<and> \<not> lessEqZero x"
    with Finite have q: "q = of_int \<lfloor>q\<rfloor>" and pos: "0 < q" by simp_all
    then have "q = of_int \<lfloor>q\<rfloor> \<and> 0 \<le> q" by simp
    then obtain i :: nat where i: "q = of_nat i" unfolding rat_nat_floor ..
    with pos have "0 < i" by simp
    with i Finite show "positiveInteger x" by (auto simp: positiveInteger_def)
  qed
qed (simp_all add: positiveInteger_def)

lemma arrayIndex_Some_iff:
  "arrayIndex xs n = Some x \<longleftrightarrow> (\<exists>i::nat. i < length xs \<and> n = Finite (of_nat i) \<and> x = xs ! i)"
proof (cases n)
  case (Finite q)
  show ?thesis
  proof
    assume "arrayIndex xs n = Some x"
    with Finite have q: "q = of_int \<lfloor>q\<rfloor>" "0 \<le> q" and l: "\<lfloor>q\<rfloor> < int (length xs)"
      and x: "x = xs ! nat \<lfloor>q\<rfloor>"
      by (auto simp: arrayIndex_def split: if_splits)
    from q obtain i :: nat where i: "q = of_nat i" using rat_nat_floor [of q] by blast
    with l x Finite show "\<exists>i::nat. i < length xs \<and> n = Finite (of_nat i) \<and> x = xs ! i"
      by auto
  next
    assume "\<exists>i::nat. i < length xs \<and> n = Finite (of_nat i) \<and> x = xs ! i"
    then show "arrayIndex xs n = Some x" by (auto simp: arrayIndex_def)
  qed
qed (simp_all add: arrayIndex_def)

lemma arrayIndex_None_iff: "arrayIndex xs n = None \<longleftrightarrow> \<not> validIndex xs n"
proof -
  have "validIndex xs n \<longleftrightarrow> (\<exists>x. arrayIndex xs n = Some x)"
    unfolding arrayIndex_Some_iff validIndex_def by blast
  then show ?thesis by simp
qed

text \<open>
  Claim C8.  Constructing a road raises the error with the message
  \<open>Row/Column must be positive integer\<close> exactly when the row count or the column
  count is not a positive integer, and raises nothing else; for positive integers the
  construction succeeds and \<open>rowCount\<close> and \<open>columnCount\<close> return the two counts.
\<close>

theorem Road_constructor_dimensions:
  "(Road_constructor r c rs arr = Inl (Error ''Row/Column must be positive integer'') \<longleftrightarrow>
      \<not> (positiveInteger r \<and> positiveInteger c)) \<and>
   ((\<exists>e. Road_constructor r c rs arr = Inl e) \<longleftrightarrow> \<not> (positiveInteger r \<and> positiveInteger c)) \<and>
   (positiveInteger r \<and> positiveInteger c \<longrightarrow>
      (\<exists>road. Road_constructor r c rs arr = Inr road \<and>
              rowCount road = r \<and> columnCount road = c))"
  by (auto simp: Road_constructor_def positiveInteger_iff rowCount_def columnCount_def)

theorem Road_constructor_dimensions_witness:
  "positiveInteger (Finite 6) \<and> positiveInteger (Finite 10) \<and>
   (\<exists>road. Road_constructor (Finite 6) (Finite 10) 0 ([] :: BigRoadItem RoadArray) = Inr road \<and>
           rowCount road = Finite 6 \<and> columnCount road = Finite 10) \<and>
   Road_constructor (Finite 6) (Finite 10) 0 ([] :: BigRoadItem RoadArray) \<noteq>
     Inl (Error ''Row/Column must be positive integer'')"
proof -
  have r: "positiveInteger (Finite 6)" and c: "positiveInteger (Finite 10)"
    by (simp_all add: positiveInteger_iff)
  from Road_constructor_dimensions [of "Finite 6" "Finite 10" 0 "[] :: BigRoadItem RoadArray"] r c
  show ?thesis by simp
qed

lemma Road_constructor_examples:
  "Road_constructor (Finite (1/2)) (Finite 10) 0 ([] :: BigRoadItem RoadArray) =
     Inl (Error ''Row/Column must be positive integer'') \<and>
   Road_constructor (Finite 0) (Finite 10) 0 ([] :: BigRoadItem RoadArray) =
     Inl (Error ''Row/Column must be positive integer'') \<and>
   Road_constructor (Finite 6) NaN 0 ([] :: BigRoadItem RoadArray) =
     Inl (Error ''Row/Column must be positive integer'') \<and>
   Road_constructor (Finite 6) PosInfinity 0 ([] :: BigRoadItem RoadArray) =
     Inl (Error ''Row/Column must be positive integer'') \<and>
   Road_constructor (Finite 1) (Finite 10) 2 ([] :: DownRoadItem RoadArray) =
     Inr \<lparr>row = Finite 1, column = Finite 10, results = 2, array = []\<rparr>"
  by code_simp

text \<open>
  Claim C10.  \<open>getItem\<close> raises \<open>TypeError\<close> for every row index that is not an
  index of the backing array (negative, too large, fractional, \<open>NaN\<close> or infinite),
  and for a row index inside the array it returns, for any column index, the cell or
  the absent value.
\<close>

theorem getItem_row_bounds:
  "(\<not> validIndex (array this) rowIdx \<longrightarrow> getItem this rowIdx colIdx = Inl TypeError) \<and>
   (validIndex (array this) rowIdx \<longrightarrow> (\<exists>v. getItem this rowIdx colIdx = Inr v)) \<and>
   (\<forall>i::nat. i < length (array this) \<and> rowIdx = Finite (of_nat i) \<longrightarrow>
        getItem this rowIdx colIdx =
          Inr (case arrayIndex (array this ! i) colIdx of None \<Rightarrow> None | Some x \<Rightarrow> x))"
proof (cases "arrayIndex (array this) rowIdx")
  case None
  then have "\<not> validIndex (array this) rowIdx" by (simp add: arrayIndex_None_iff)
  with None show ?thesis by (auto simp: getItem_def validIndex_def)
next
  case (Some rw)
  then obtain i :: nat where i: "i < length (array this)" "rowIdx = Finite (of_nat i)"
    "rw = array this ! i" unfolding arrayIndex_Some_iff by blast
  then have "validIndex (array this) rowIdx" by (auto simp: validIndex_def)
  with Some i show ?thesis by (auto simp: getItem_def)
qed


theorem getItem_row_bounds_witness:
  "validIndex (array \<lparr>row = Finite 4, column = Finite 3, results = 0, array = grid432\<rparr>) (Finite 2) \<and>
   getItem \<lparr>row = Finite 4, column = Finite 3, results = 0, array = grid432\<rparr> (Finite 2) (Finite 1) =
     Inr (Some \<lparr>BigRoadItem.order = 7\<rparr>) \<and>
   getItem \<lparr>row = Finite 4, column = Finite 3, results = 0, array = grid432\<rparr> (Finite 2) (Finite 2) =
     Inr None \<and>
   \<not> validIndex (array \<lparr>row = Finite 4, column = Finite 3, results = 0, array = grid432\<rparr>) (Finite 4) \<and>
   getItem \<lparr>row = Finite 4, column = Finite 3, results = 0, array = grid432\<rparr> (Finite 4) (Finite 0) =
     Inl TypeError"
proof -
  let ?road = "\<lparr>row = Finite 4, column = Finite 3, results = 0, array = grid432\<rparr>"
  have len: "length grid432 = 4" by (simp add: grid432_def)
  have v: "validIndex (array ?road) (Finite 2)"
    unfolding validIndex_def by (rule exI [of _ 2]) (simp add: len)
  have n: "\<not> validIndex (array ?road) (Finite 4)"
    by (auto simp: validIndex_def len)
  have g1: "getItem ?road (Finite 2) (Finite 1) = Inr (Some \<lparr>BigRoadItem.order = 7\<rparr>)"
    by code_simp
  have g2: "getItem ?road (Finite 2) (Finite 2) = Inr None"
    by code_simp
  from getItem_row_bounds [of ?road "Finite 4" "Finite 0"] n v g1 g2 show ?thesis by blast
qed

section \<open>The prediction engine\<close>

lemma getPrediction_undefined_member:
  assumes "roundResults this = None"
  shows "getPrediction f h this fake gap = (Inl TypeError, h)"
  using assms by (simp add: getPrediction_def)

lemma DownRoad_constructor_member:
  assumes "DownRoad_constructor r c rs arr = Inr this"
  shows "roundResults this = None"
  using assms by (auto simp: DownRoad_constructor_def split: sum.splits)

lemma DownRoad_constructor_example:
  "DownRoad_constructor (Finite 6) (Finite 10) 2 [] = Inr exampleRoad"
  by code_simp

text \<open>
  Claim C5 at any road that the constructor builds.  Whatever the primary-grid builder,
  the store, the hypothetical round and the gap, the read of \<open>this.roundResults\<close>
  yields \<open>undefined\<close> and the prediction raises \<open>TypeError\<close>, where the colour of a
  mark or the unknown value is expected.
\<close>

theorem getPrediction_raises_on_constructed_road:
  assumes "DownRoad_constructor r c rs arr = Inr this"
  shows "fst (getPrediction f h this fake gap) = Inl TypeError"
  using DownRoad_constructor_member [OF assms] by (simp add: getPrediction_undefined_member)

theorem getPrediction_raises_on_constructed_road_witness:
  "DownRoad_constructor (Finite 6) (Finite 10) 2 [] = Inr exampleRoad \<and>
   fst (getPrediction (\<lambda>r c rs. []) exampleHeap exampleRoad 3 BigEyeRoadGap) = Inl TypeError"
  using getPrediction_raises_on_constructed_road [OF DownRoad_constructor_example]
    DownRoad_constructor_example
  by simp



section \<open>The prediction engine on an object that has the member\<close>

text \<open>
  What the statements of \<open>getPrediction\<close> do once \<open>this.roundResults\<close> is an array
  \<open>a\<close>: the rounds are copied to new references, the hypothetical round is pushed on
  the new array, nothing that was in use is written, and the result is the colour of
  the last mark, the unknown value, or the builder's \<open>TypeError\<close>.  No road built by
  the constructor is of this kind.
\<close>

lemma RoundResult_copy:
  "\<lparr>RoundResult.order = RoundResult.order x, result = result x,
     gameResult = gameResult x, pairResult = pairResult x\<rparr> = x"
  by (cases x) simp

lemma RoundResult_from_eq:
  "RoundResult_from h s =
     (nextRef h, h\<lparr>rounds := (rounds h)(nextRef h := rounds h s), nextRef := Suc (nextRef h)\<rparr>)"
  by (simp add: RoundResult_from_def RoundResult_copy)

lemma mapFrom_nextRef: "nextRef (snd (mapFrom h srcs)) = nextRef h + length srcs"
  by (induction srcs arbitrary: h) (simp_all add: RoundResult_from_eq case_prod_beta)

lemma mapFrom_arrays: "arrays (snd (mapFrom h srcs)) = arrays h"
  by (induction srcs arbitrary: h) (simp_all add: RoundResult_from_eq case_prod_beta)

lemma mapFrom_refs: "fst (mapFrom h srcs) = [nextRef h..<nextRef h + length srcs]"
proof (induction srcs arbitrary: h)
  case Nil
  show ?case by simp
next
  case (Cons s srcs)
  let ?h1 = "h\<lparr>rounds := (rounds h)(nextRef h := rounds h s), nextRef := Suc (nextRef h)\<rparr>"
  have "fst (mapFrom h (s # srcs)) = nextRef h # fst (mapFrom ?h1 srcs)"
    by (simp add: RoundResult_from_eq case_prod_beta)
  also have "\<dots> = nextRef h # [Suc (nextRef h)..<Suc (nextRef h) + length srcs]"
    by (simp only: Cons.IH) simp
  also have "\<dots> = [nextRef h..<Suc (nextRef h) + length srcs]"
    by (rule upt_conv_Cons [symmetric]) simp
  finally show ?case by simp
qed

lemma mapFrom_frame:
  "r < nextRef h \<Longrightarrow> rounds (snd (mapFrom h srcs)) r = rounds h r"
  by (induction srcs arbitrary: h) (simp_all add: RoundResult_from_eq case_prod_beta)

lemma mapFrom_values:
  assumes "\<forall>s \<in> set srcs. s < nextRef h"
  shows "map (rounds (snd (mapFrom h srcs))) (fst (mapFrom h srcs)) = map (rounds h) srcs"
  using assms
proof (induction srcs arbitrary: h)
  case Nil
  show ?case by simp
next
  case (Cons s srcs)
  let ?h1 = "h\<lparr>rounds := (rounds h)(nextRef h := rounds h s), nextRef := Suc (nextRef h)\<rparr>"
  from Cons.prems have below: "\<forall>x \<in> set srcs. x < nextRef ?h1"
    by (auto intro: less_SucI)
  have head: "rounds (snd (mapFrom ?h1 srcs)) (nextRef h) = rounds h s"
    by (simp add: mapFrom_frame)
  have "map (rounds (snd (mapFrom ?h1 srcs))) (fst (mapFrom ?h1 srcs)) = map (rounds ?h1) srcs"
    using below by (rule Cons.IH)
  also have "\<dots> = map (rounds h) srcs"
    using Cons.prems by (auto simp: fun_upd_def)
  finally show ?case by (simp add: RoundResult_from_eq case_prod_beta head)
qed

lemma fakeRoundResultsOf_ref:
  "fst (fakeRoundResultsOf h a fake) = nextRef h + length (arrays h a)"
  by (simp add: fakeRoundResultsOf_def newArray_def push_def case_prod_beta mapFrom_nextRef)

lemma fakeRoundResultsOf_nextRef:
  "nextRef (snd (fakeRoundResultsOf h a fake)) =
     Suc (nextRef h + length (arrays h a))"
  by (simp add: fakeRoundResultsOf_def newArray_def push_def case_prod_beta mapFrom_nextRef)

lemma fakeRoundResultsOf_array:
  "arrays (snd (fakeRoundResultsOf h a fake)) (fst (fakeRoundResultsOf h a fake)) =
     [nextRef h..<nextRef h + length (arrays h a)] @ [fake]"
  by (simp add: fakeRoundResultsOf_def newArray_def push_def case_prod_beta mapFrom_nextRef
        mapFrom_refs)

lemma fakeRoundResultsOf_frame:
  assumes "r < nextRef h"
  shows "rounds (snd (fakeRoundResultsOf h a fake)) r = rounds h r"
    and "arrays (snd (fakeRoundResultsOf h a fake)) r = arrays h r"
  using assms
  by (simp_all add: fakeRoundResultsOf_def newArray_def push_def case_prod_beta mapFrom_nextRef
        mapFrom_frame mapFrom_arrays)

lemma fakeRoundResultsOf_copies:
  assumes "\<forall>s \<in> set (arrays h a). s < nextRef h"
  shows "map (rounds (snd (fakeRoundResultsOf h a fake)))
           [nextRef h..<nextRef h + length (arrays h a)] =
         map (rounds h) (arrays h a)"
  using mapFrom_values [OF assms]
  by (simp add: fakeRoundResultsOf_def newArray_def push_def case_prod_beta mapFrom_refs)

lemma fakeRoundResultsOf_values:
  assumes "\<forall>s \<in> set (arrays h a). s < nextRef h" and "fake < nextRef h"
  shows "map (rounds (snd (fakeRoundResultsOf h a fake)))
           (arrays (snd (fakeRoundResultsOf h a fake)) (fst (fakeRoundResultsOf h a fake))) =
         map (rounds h) (arrays h a) @ [rounds h fake]"
  by (simp add: fakeRoundResultsOf_array fakeRoundResultsOf_copies [OF assms(1)]
        fakeRoundResultsOf_frame(1) [OF assms(2)])

lemma arrayGet_last:
  "arrayGet xs (int (length xs) - 1) = (if xs = [] then None else Some (last xs))"
  by (cases "xs = []") (simp_all add: arrayGet_def last_conv_nth nat_diff_distrib')

lemma getPrediction_heap:
  assumes "roundResults this = Some a"
  shows "snd (getPrediction f h this fake gap) = snd (fakeRoundResultsOf h a fake)"
  using assms by (simp add: getPrediction_def case_prod_beta split: sum.split)

lemma getPrediction_value:
  assumes "roundResults this = Some a"
    and "\<forall>s \<in> set (arrays h a). s < nextRef h" and "fake < nextRef h"
  shows "fst (getPrediction f h this fake gap) =
           (case generateDownRoadData
                   (f (row this) (column this) (map (rounds h) (arrays h a) @ [rounds h fake]))
                   gap of
              Inl e \<Rightarrow> Inl e
            | Inr marks \<Rightarrow> Inr (if marks = [] then None else Some (repetition (last marks))))"
  using assms(1)
  by (simp add: getPrediction_def case_prod_beta fakeRoundResultsOf_values [OF assms(2,3)]
        arrayGet_last split: sum.split)

lemma getPrediction_frame:
  assumes "roundResults this = Some a" and "r < nextRef h"
  shows "rounds (snd (getPrediction f h this fake gap)) r = rounds h r"
    and "arrays (snd (getPrediction f h this fake gap)) r = arrays h r"
  using assms(2) by (simp_all add: getPrediction_heap [OF assms(1)] fakeRoundResultsOf_frame)

lemma getPrediction_repeated:
  assumes "roundResults this = Some a" and "a < nextRef h"
    and "\<forall>s \<in> set (arrays h a). s < nextRef h" and "fake < nextRef h"
  shows "fst (getPrediction f (snd (getPrediction f h this fake gap)) this fake gap) =
           fst (getPrediction f h this fake gap)"
proof -
  let ?h1 = "snd (getPrediction f h this fake gap)"
  have same_array: "arrays ?h1 a = arrays h a"
    using assms(1,2) by (rule getPrediction_frame(2))
  have same_rounds: "map (rounds ?h1) (arrays h a) = map (rounds h) (arrays h a)"
    using assms(3) getPrediction_frame(1) [OF assms(1)] by simp
  have same_fake: "rounds ?h1 fake = rounds h fake"
    using assms(1,4) by (rule getPrediction_frame(1))
  have grows: "nextRef h \<le> nextRef ?h1"
    by (simp add: getPrediction_heap [OF assms(1)] fakeRoundResultsOf_nextRef)
  have wf1: "\<forall>s \<in> set (arrays ?h1 a). s < nextRef ?h1"
    using assms(3) grows by (auto simp: same_array)
  have wf2: "fake < nextRef ?h1" using assms(4) grows by simp
  show ?thesis
    unfolding getPrediction_value [OF assms(1) wf1 wf2] getPrediction_value [OF assms(1,3,4)]
    by (simp only: same_array same_rounds same_fake)
qed

section \<open>Appending cells to a grid\<close>

text \<open>
  The builder by itself is not monotone in the cells of the grid: a later cell at row 1
  of column \<open>gap\<close> moves the begin order forward, and the marks of the earlier cells
  are no longer produced.  Whether two such grids can arise from a history and its
  extension is decided by the primary-grid builder.
\<close>

lemma generateDownRoadData_added_cell:
  "generateDownRoadData gridFlat BigEyeRoadGap =
     Inr [\<lparr>DownRoadItem.order = 3, repetition = True\<rparr>,
          \<lparr>DownRoadItem.order = 4, repetition = True\<rparr>] \<and>
   generateDownRoadData gridFlatPlus BigEyeRoadGap =
     Inr [\<lparr>DownRoadItem.order = 5, repetition = False\<rparr>]"
  by code_simp

end
